theory Spec2Isabelle
  imports Main "HOL-Library.Word"
begin

unbundle bit_operations_syntax

section \<open>Data model of FrequencyCounter.cpp (ATmega32U4, avr-gcc)\<close>

text \<open>
  On the AVR target \<open>byte\<close> and \<open>sbyte\<close> are 8 bits, \<open>unsigned int\<close> is 16 bits and
  \<open>unsigned long\<close> is 32 bits. \<open>sbyte\<close> values are kept as 8-bit words and read with
  \<open>sint\<close> wherever the source compares or promotes them.
\<close>

type_synonym byte = "8 word"
type_synonym sbyte = "8 word"
type_synonym uint16 = "16 word"
type_synonym ulong = "32 word"

text \<open>Compile-time configuration: \<open>FCEXTERN = 1\<close>, \<open>FCPERIOD = 1\<close>, \<open>FCPRESCALER = 1\<close>.\<close>

definition FCEXTNO :: int where "FCEXTNO = 6"
definition FCPRDNO :: int where "FCPRDNO = 7"
definition FCMODEMAX :: int where "FCMODEMAX = 9"
definition PERIODTIMOUT :: nat where "PERIODTIMOUT = 5000"
definition FCEXTGATEMSK :: byte where "FCEXTGATEMSK = 0x20"
definition FCTIME :: byte where "FCTIME = 10"

text \<open>
  The module's file-scope variables, the static counter of \<open>SysTimerIntFunc\<close>, and the
  control registers the module writes. \<open>TCNT0\<close> holds the value last written by software;
  what the running hardware counter reads back is an input of the handlers that read it.
  \<open>TIFR0\<close> (write-one-to-clear flags) and the pin configuration carry no state that the
  module reads back, and are left out.
\<close>

record fc_state =
  FreqCtrReady :: byte
  fcResult :: ulong
  fcOVF :: ulong
  fcprescaler :: uint16
  fcprescalInit :: uint16
  fcGateTime :: sbyte
  PrdCnt :: byte
  fcprescale :: byte
  TCCR0A :: byte
  TCCR0B :: byte
  TCNT0 :: byte
  TIMSK0 :: byte
  PCMSK0 :: byte
  PCICR :: byte

definition init_state :: fc_state where
  "init_state = \<lparr> FreqCtrReady = 0, fcResult = 0, fcOVF = 0, fcprescaler = 0,
     fcprescalInit = 0, fcGateTime = 0, PrdCnt = 0, fcprescale = FCTIME,
     TCCR0A = 0, TCCR0B = 0, TCNT0 = 0, TIMSK0 = 0, PCMSK0 = 0, PCICR = 0 \<rparr>"

section \<open>Interrupt handlers\<close>

text \<open>\<open>InitPCInterrupt(mask)\<close>, restricted to the pin-change mask registers.\<close>

definition InitPCInterrupt :: "byte \<Rightarrow> fc_state \<Rightarrow> fc_state" where
  "InitPCInterrupt msk s =
     (if msk \<noteq> 0 then s\<lparr>PCMSK0 := PCMSK0 s OR (msk AND 0x7F), PCICR := 1\<rparr>
      else s\<lparr>PCICR := 0, PCMSK0 := 0\<rparr>)"

text \<open>
  \<open>PCChangeIntFunc(Changes)\<close>: \<open>Changes[0]\<close> are the pins that went low, \<open>Changes[1]\<close>
  the pins that went high; \<open>tcnt\<close> is what \<open>TCNT0\<close> reads at the rising edge.
\<close>

definition PCChangeIntFunc :: "byte \<times> byte \<Rightarrow> byte \<Rightarrow> fc_state \<Rightarrow> (byte \<times> byte) \<times> fc_state" where
  "PCChangeIntFunc Changes tcnt s =
     (if sint (fcGateTime s) = FCEXTNO then
        let (c0, s1) =
              (if fst Changes AND FCEXTGATEMSK \<noteq> 0
               then (fst Changes AND NOT FCEXTGATEMSK, s\<lparr>TCNT0 := 0, TCCR0B := 6, fcOVF := 0\<rparr>)
               else (fst Changes, s));
            (c1, s2) =
              (if snd Changes AND FCEXTGATEMSK \<noteq> 0
               then let svTCCR = TCCR0B s1;
                        s' = s1\<lparr>TCCR0B := 0,
                                fcResult := push_bit 8 (fcOVF s1) + ucast tcnt,
                                fcOVF := 0\<rparr>
                    in (NOT FCEXTGATEMSK, if svTCCR \<noteq> 0 then s'\<lparr>FreqCtrReady := 1\<rparr> else s')
               else (snd Changes, s1))
        in ((c0, c1), s2)
      else (Changes, s))"

text \<open>\<open>ISR(TIMER0_OVF_vect)\<close>; \<open>us\<close> is the value returned by \<open>micros()\<close>.\<close>

definition TIMER0_OVF :: "ulong \<Rightarrow> fc_state \<Rightarrow> fc_state" where
  "TIMER0_OVF us s =
     (if sint (fcGateTime s) \<ge> FCPRDNO then
        let SavMicros = us;
            s1 = s\<lparr>TCNT0 := - PrdCnt s\<rparr>;
            s2 = (if fcOVF s1 \<noteq> 0
                  then s1\<lparr>fcResult := SavMicros - fcOVF s1, FreqCtrReady := 1\<rparr>
                  else s1)
        in s2\<lparr>fcprescaler := fcprescalInit s2, fcOVF := SavMicros\<rparr>
      else s\<lparr>fcOVF := fcOVF s + 1\<rparr>)"

text \<open>
  \<open>FreqCtrGateISR()\<close>; \<open>tcnt\<close> is what \<open>TCNT0\<close> reads when the gate closes. The
  condition \<open>fcprescaler && !--fcprescaler\<close> decrements only a nonzero counter.
\<close>

definition FreqCtrGateISR :: "byte \<Rightarrow> fc_state \<Rightarrow> fc_state" where
  "FreqCtrGateISR tcnt s =
     (if fcprescaler s \<noteq> 0 then
        let s1 = s\<lparr>fcprescaler := fcprescaler s - 1\<rparr> in
        if fcprescaler s1 = 0 then
          let s2 =
            (if sint (fcGateTime s1) \<ge> FCPRDNO then
               (if FreqCtrReady s1 = 0
                then s1\<lparr>TCNT0 := - PrdCnt s1, fcOVF := 0, fcResult := 1, FreqCtrReady := 1\<rparr>
                else s1)
             else
               let svTCCR = TCCR0B s1;
                   svTCNT = tcnt;
                   s' = s1\<lparr>TCCR0B := 6, TCNT0 := 0,
                           fcResult := push_bit 8 (fcOVF s1) + ucast svTCNT,
                           fcOVF := 0\<rparr>
               in if svTCCR \<noteq> 0 then s'\<lparr>FreqCtrReady := 1\<rparr> else s')
          in s2\<lparr>fcprescaler := fcprescalInit s2\<rparr>
        else s1
      else s)"

text \<open>\<open>SysTimerIntFunc()\<close>: every \<open>FCTIME\<close>-th millisecond tick runs the gate handler.\<close>

definition SysTimerIntFunc :: "byte \<Rightarrow> fc_state \<Rightarrow> fc_state" where
  "SysTimerIntFunc tcnt s =
     (let s1 = s\<lparr>fcprescale := fcprescale s - 1\<rparr> in
      if fcprescale s1 = 0 then (FreqCtrGateISR tcnt s1)\<lparr>fcprescale := FCTIME\<rparr> else s1)"

section \<open>Mode controller\<close>

text \<open>\<open>FrequencyCounter::available()\<close> and \<open>FrequencyCounter::mode(void)\<close>.\<close>

definition available :: "fc_state \<Rightarrow> byte" where
  "available s = FreqCtrReady s"

definition mode_get :: "fc_state \<Rightarrow> sbyte" where
  "mode_get s = fcGateTime s"

text \<open>
  The loop \<open>for (i=1,t=1; i<GateTime; i++) t*=10\<close>: \<open>t\<close> is a 16-bit \<open>unsigned int\<close>
  and wraps; the index is compared after promotion to \<open>int\<close> and never exceeds 9.
\<close>

function t_loop :: "int \<Rightarrow> int \<Rightarrow> uint16 \<Rightarrow> uint16" where
  "t_loop i g t = (if i < g then t_loop (i + 1) g (t * 10) else t)"
  by pat_completeness auto
termination
  by (relation "measure (\<lambda>(i, g, t). nat (g - i))") auto

text \<open>The loop \<open>for (..., PrdCnt=1, i=0; i<j; i++) PrdCnt*=10\<close> on a \<open>byte\<close>.\<close>

function prd_loop :: "int \<Rightarrow> int \<Rightarrow> byte \<Rightarrow> byte" where
  "prd_loop i j p = (if i < j then prd_loop (i + 1) j (p * 10) else p)"
  by pat_completeness auto
termination
  by (relation "measure (\<lambda>(i, j, p). nat (j - i))") auto

declare t_loop.simps [simp del] prd_loop.simps [simp del]

text \<open>
  The local \<open>GateTime\<close> after \<open>if (GateTime==FCEXTNO) GateTime=1\<close> and
  \<open>if (GateTime && GateTime<4) if (!--GateTime) GateTime=3\<close>.
\<close>

definition gate_index :: "sbyte \<Rightarrow> sbyte" where
  "gate_index GateTime =
     (let g = (if sint GateTime = FCEXTNO then 1 else GateTime)
      in if g \<noteq> 0 \<and> sint g < 4 then (if g - 1 = 0 then 3 else g - 1) else g)"

text \<open>The branch \<open>if (fcprescaler)\<close>: the counter is switched on.\<close>

definition mode_arm :: "fc_state \<Rightarrow> fc_state" where
  "mode_arm s =
     (let s1 = s\<lparr>fcprescaler := 1\<rparr> in
      if sint (fcGateTime s1) \<ge> FCPRDNO then
        s1\<lparr>TCCR0A := 0, TCNT0 := - PrdCnt s1, fcOVF := 0, TCCR0B := 6,
           TIMSK0 := TIMSK0 s1 OR 1\<rparr>
      else
        let s2 = s1\<lparr>TCCR0A := 0, TCCR0B := 0, TCNT0 := 0, TIMSK0 := TIMSK0 s1 OR 1\<rparr>
        in if sint (fcGateTime s2) = FCEXTNO
           then (InitPCInterrupt FCEXTGATEMSK s2)\<lparr>fcprescaler := 0\<rparr>
           else s2)"

text \<open>The \<open>else\<close> branch: the counter is switched off.\<close>

definition mode_off :: "byte \<Rightarrow> fc_state \<Rightarrow> fc_state" where
  "mode_off svGateTime s =
     (let s1 = s\<lparr>TCCR0A := 0, TCCR0B := 0, TIMSK0 := TIMSK0 s AND NOT 1\<rparr>
      in if uint svGateTime = FCEXTNO then InitPCInterrupt 0 s1 else s1)"

text \<open>\<open>FrequencyCounter::mode(sbyte GateTime)\<close>: the returned code and the new state.\<close>

definition mode :: "sbyte \<Rightarrow> fc_state \<Rightarrow> sbyte \<times> fc_state" where
  "mode GateTime s =
     (if sint GateTime < 0 then (fcGateTime s, s)
      else if sint GateTime > FCMODEMAX then (- 1, s)
      else
        let svGateTime = fcGateTime s;
            s1 = s\<lparr>fcGateTime := GateTime\<rparr>;
            g = gate_index GateTime;
            t = (if g \<noteq> 0 then t_loop 1 (sint g) 1 else 0);
            s2 = (if sint (fcGateTime s1) \<ge> FCPRDNO
                  then s1\<lparr>PrdCnt := prd_loop 0 (uint (word_of_int (sint g - FCPRDNO) :: byte)) 1\<rparr>
                  else s1);
            t' = (if sint (fcGateTime s1) \<ge> FCPRDNO then of_nat (PERIODTIMOUT div 10) else t);
            s3 = s2\<lparr>fcprescalInit := t', fcprescaler := t'\<rparr>;
            s4 = (if fcprescaler s3 \<noteq> 0 then mode_arm s3 else mode_off svGateTime s3);
            s5 = s4\<lparr>FreqCtrReady := 0, fcResult := 0\<rparr>
        in (fcGateTime s5, s5))"

section \<open>Events between two tests of the wait loop\<close>

text \<open>
  While the mainline yields, interrupt handlers run and cooperative code may call
  \<open>mode\<close>. Each entry point is one event; an event carries the hardware values its
  handler reads.
\<close>

datatype event =
    EvGate byte
  | EvSysTimer byte
  | EvOvf ulong
  | EvPin "byte \<times> byte" byte
  | EvMode sbyte

fun apply_event :: "event \<Rightarrow> fc_state \<Rightarrow> fc_state" where
  "apply_event (EvGate tcnt) s = FreqCtrGateISR tcnt s"
| "apply_event (EvSysTimer tcnt) s = SysTimerIntFunc tcnt s"
| "apply_event (EvOvf us) s = TIMER0_OVF us s"
| "apply_event (EvPin Changes tcnt) s = snd (PCChangeIntFunc Changes tcnt s)"
| "apply_event (EvMode g) s = snd (mode g s)"



datatype fault = StillWaiting | DivByZero | BadStrcpy

text \<open>
  \<open>while (fcGateTime && Wait && !_FreqCtrReady) { yield(); }\<close>: the environment is the
  list of event batches that happen during the successive calls of \<open>yield()\<close>. The loop
  tests the live variables before every call; when the batches are used up and the
  condition still holds, the read has not returned (\<open>StillWaiting\<close>).
\<close>

fun wait_ready :: "bool \<Rightarrow> event list list \<Rightarrow> fc_state \<Rightarrow> fault + fc_state" where
  "wait_ready Wait [] s =
     (if fcGateTime s \<noteq> 0 \<and> Wait \<and> FreqCtrReady s = 0 then Inl StillWaiting else Inr s)"
| "wait_ready Wait (evs # env) s =
     (if fcGateTime s \<noteq> 0 \<and> Wait \<and> FreqCtrReady s = 0
      then wait_ready Wait env (fold apply_event evs s) else Inr s)"

section \<open>Scaler and formatter\<close>

text \<open>\<open>Log10I\<close>: \<open>while (Val>1) { i++; Val/=10; }\<close>.\<close>

function Log10I_loop :: "byte \<Rightarrow> ulong \<Rightarrow> byte" where
  "Log10I_loop i Val = (if 1 < Val then Log10I_loop (i + 1) (Val div 10) else i)"
  by pat_completeness auto
termination
proof (relation "measure (\<lambda>(i, Val). unat Val)")
  show "wf (measure (\<lambda>(i, Val). unat Val))" by simp
next
  fix i :: byte and Val :: ulong
  assume "1 < Val"
  then have "1 < unat Val" by (simp add: word_less_nat_alt)
  then have "unat Val div 10 < unat Val" by simp
  then show "((i + 1, Val div 10), (i, Val)) \<in> measure (\<lambda>(i, Val). unat Val)"
    by (simp add: unat_div)
qed

declare Log10I_loop.simps [simp del]

definition Log10I :: "ulong \<Rightarrow> byte" where
  "Log10I Val = Log10I_loop 0 Val"

text \<open>
  The C library's \<open>%lu\<close> and \<open>%09lu\<close> conversions: decimal digits, most significant
  first, and the same left-padded with zeros to at least nine characters.
\<close>

definition digit_char :: "nat \<Rightarrow> char" where
  "digit_char d = ''0123456789'' ! d"

fun dec_str :: "nat \<Rightarrow> string" where
  "dec_str n = (if n < 10 then [digit_char n] else dec_str (n div 10) @ [digit_char (n mod 10)])"

declare dec_str.simps [simp del]

definition sprintf_lu :: "ulong \<Rightarrow> string" where
  "sprintf_lu Val = dec_str (unat Val)"

definition sprintf_09lu :: "ulong \<Rightarrow> string" where
  "sprintf_09lu Val = replicate (9 - length (dec_str (unat Val))) CHR ''0'' @ dec_str (unat Val)"

text \<open>
  \<open>DPStr(st, Val, DP)\<close>: the text written at \<open>st\<close>. \<open>strcpy(st+1, st+(strlen(st)-DP))\<close>
  moves the last \<open>DP\<close> characters down to offset 1; source and destination overlap, with
  the source at or after the destination only when \<open>DP < strlen(st)\<close>, otherwise the copy
  is not defined.
\<close>

definition DPStr :: "ulong \<Rightarrow> nat \<Rightarrow> fault + string" where
  "DPStr Val DP =
     (if DP = 0 then Inr []
      else let st = sprintf_09lu Val
           in if DP < length st then Inr (CHR ''.'' # drop (length st - DP) st)
              else Inl BadStrcpy)"

text \<open>
  Period branch of \<open>read\<close>: the triple \<open>(dp, scale, Val)\<close>. The quotient is computed in
  64 bits (\<open>100000000000ULL\<close>) and stored back into the 32-bit \<open>Val\<close>;
  \<open>*((byte *)&Val)=0\<close> clears the low byte of the little-endian \<open>Val\<close>.
\<close>

definition period_scale :: "fc_state \<Rightarrow> ulong \<Rightarrow> int \<times> ulong \<times> ulong" where
  "period_scale s Val =
     (if FreqCtrReady s \<noteq> 0 \<and> 24 * uint (PrdCnt s) < uint Val
      then (5, 100000,
            ucast ((100000000000 * (ucast (PrdCnt s) :: 64 word)) div (ucast Val :: 64 word)))
      else if Val = 1 then (5, 100000, Val AND NOT 0xFF)
      else (0, 1, 999999))"

text \<open>
  Frequency branch: \<open>scale=fcprescalInit/100; dp=Log10I(fcprescalInit)-2;
  if (dp<0) { scale=1; while (dp<0) { Val*=10; dp++; } }\<close>. \<open>dp\<close> is a \<open>char\<close> whose
  values stay between -2 and 8, so it is kept as an \<open>int\<close>; \<open>Val\<close> wraps at 32 bits.
\<close>

function mul10_loop :: "int \<Rightarrow> ulong \<Rightarrow> int \<times> ulong" where
  "mul10_loop dp Val = (if dp < 0 then mul10_loop (dp + 1) (Val * 10) else (dp, Val))"
  by pat_completeness auto
termination
  by (relation "measure (\<lambda>(dp, Val). nat (- dp))") auto

declare mul10_loop.simps [simp del]

definition freq_scale :: "fc_state \<Rightarrow> ulong \<Rightarrow> int \<times> ulong \<times> ulong" where
  "freq_scale s Val =
     (let scale = (ucast (fcprescalInit s div 100) :: ulong);
          dp = uint (Log10I (ucast (fcprescalInit s))) - 2
      in if dp < 0 then (let (dp', Val') = mul10_loop dp Val in (dp', 1, Val'))
         else (dp, scale, Val))"

text \<open>
  \<open>sprintf_P(St,PSTR("%lu"),Val/scale); if (dp) DPStr(St+strlen(St),Val,dp);\<close>
\<close>

definition format_value :: "int \<Rightarrow> ulong \<Rightarrow> ulong \<Rightarrow> fault + string" where
  "format_value dp scale Val =
     (if scale = 0 then Inl DivByZero
      else let St = sprintf_lu (Val div scale)
           in if dp \<noteq> 0
              then (case DPStr Val (nat dp) of Inl e \<Rightarrow> Inl e | Inr f \<Rightarrow> Inr (St @ f))
              else Inr St)"

text \<open>
  \<open>char *FrequencyCounter::read(char *St, bool Wait)\<close>. \<open>St\<close> tells whether a buffer
  was supplied; the result is the returned string (\<open>None\<close> for \<open>NULL\<close>) and the new state.
\<close>

definition read_str ::
    "bool \<Rightarrow> bool \<Rightarrow> event list list \<Rightarrow> fc_state \<Rightarrow> fault + (string option \<times> fc_state)" where
  "read_str St Wait env s =
     (if \<not> St then Inr (None, s)
      else case wait_ready Wait env s of
             Inl e \<Rightarrow> Inl e
           | Inr s1 \<Rightarrow>
               (let Val = fcResult s1;
                    (dp, scale, Val') =
                       (if sint (fcGateTime s1) \<ge> FCPRDNO then period_scale s1 Val
                        else freq_scale s1 Val)
                in (case format_value dp scale Val' of
                      Inl e \<Rightarrow> Inl e
                    | Inr str \<Rightarrow> Inr (Some str, s1\<lparr>FreqCtrReady := 0\<rparr>))))"

text \<open>\<open>unsigned long FrequencyCounter::read(bool Wait)\<close>.\<close>

definition read_raw :: "bool \<Rightarrow> event list list \<Rightarrow> fc_state \<Rightarrow> fault + (ulong \<times> fc_state)" where
  "read_raw Wait env s =
     (case wait_ready Wait env s of
        Inl e \<Rightarrow> Inl e
      | Inr s1 \<Rightarrow> let s2 = s1\<lparr>FreqCtrReady := 0\<rparr> in Inr (fcResult s2, s2))"

section \<open>Reachable states\<close>

text \<open>
  The states the module can be in between two of its entry points, each entry point
  taken as one step.
\<close>

inductive reachable :: "fc_state \<Rightarrow> bool" where
  start: "reachable init_state"
| event: "reachable s \<Longrightarrow> reachable (apply_event e s)"
| read_str: "reachable s \<Longrightarrow> read_str St Wait env s = Inr (r, s') \<Longrightarrow> reachable s'"
| read_raw: "reachable s \<Longrightarrow> read_raw Wait env s = Inr (v, s') \<Longrightarrow> reachable s'"

section \<open>Reference renderings\<close>

text \<open>
  The \<open>k\<close> low-order decimal digits of \<open>n\<close>, most significant first.
\<close>

definition low_digits :: "nat \<Rightarrow> nat \<Rightarrow> string" where
  "low_digits k n = map (\<lambda>i. digit_char (n div 10 ^ (k - i) mod 10)) [1..<Suc k]"

text \<open>
  Period modes: the frequency \<open>10^6 * N / P\<close> Hz of \<open>N\<close> cycles lasting \<open>P\<close>
  microseconds, written with its integer part and exactly five further decimal digits,
  each computed in exact integer arithmetic (no rounding).
\<close>

definition spec_hz_str :: "nat \<Rightarrow> nat \<Rightarrow> string" where
  "spec_hz_str N P =
     dec_str (10 ^ 6 * N div P) @ ''.'' @
     map (\<lambda>i. digit_char (10 ^ 6 * N * 10 ^ i div P mod 10)) [1..<6]"

text \<open>
  Frequency modes: a gate of \<open>d\<close> ticks of 10 ms. Up to one second (\<open>d \<le> 100\<close>) the
  count is scaled up to a whole number of Hz (in the 32 bits of the count); above one
  second the count is divided by \<open>d div 100\<close> and the remainder gives the decimal digits.
\<close>

definition spec_freq_str :: "nat \<Rightarrow> ulong \<Rightarrow> string" where
  "spec_freq_str d V =
     (if d \<le> 100 then dec_str (unat (V * of_nat (100 div d)))
      else dec_str (unat V div (d div 100)) @ ''.'' @
           (if d div 100 = 10 then low_digits 1 (unat V) else low_digits 2 (unat V)))"

section \<open>Invariant of the reachable states\<close>

text \<open>The gate divisor (in ticks) that \<open>mode\<close> stores in \<open>fcprescalInit\<close> for each code.\<close>

definition divisor_of :: "sbyte \<Rightarrow> uint16" where
  "divisor_of g =
     (if g = 0 then 0 else if g = 1 then 100 else if g = 2 then 1 else if g = 3 then 10
      else if g = 4 then 1000 else if g = 5 then 10000 else if g = 6 then 100 else 500)"

definition fc_inv :: "fc_state \<Rightarrow> bool" where
  "fc_inv s \<longleftrightarrow>
     0 \<le> sint (fcGateTime s) \<and> sint (fcGateTime s) \<le> 9 \<and>
     fcprescalInit s = divisor_of (fcGateTime s) \<and>
     (fcprescaler s = 0 \<longleftrightarrow> fcGateTime s = 0 \<or> fcGateTime s = 6) \<and>
     (7 \<le> sint (fcGateTime s) \<longrightarrow>
        PrdCnt s = (if fcGateTime s = 7 then 1 else if fcGateTime s = 8 then 10 else 100))"

section \<open>Mode codes and the state invariant\<close>


lemma sbyte_cases:
  fixes g :: sbyte
  assumes "0 \<le> sint g" "sint g \<le> 9"
  shows "g = 0 \<or> g = 1 \<or> g = 2 \<or> g = 3 \<or> g = 4 \<or> g = 5 \<or> g = 6 \<or> g = 7 \<or> g = 8 \<or> g = 9"
proof -
  have "sint g = 0 \<or> sint g = 1 \<or> sint g = 2 \<or> sint g = 3 \<or> sint g = 4 \<or> sint g = 5
      \<or> sint g = 6 \<or> sint g = 7 \<or> sint g = 8 \<or> sint g = 9"
    using assms by arith
  moreover have "\<And>n. sint g = n \<Longrightarrow> g = word_of_int n" by auto
  ultimately show ?thesis by fastforce
qed

lemma t_loop_vals:
  "t_loop 1 1 1 = 1" "t_loop 1 2 1 = 10" "t_loop 1 3 1 = 100" "t_loop 1 4 1 = 1000"
  "t_loop 1 5 1 = 10000"
  by (simp_all add: t_loop.simps)

lemma prd_loop_vals:
  "prd_loop 0 0 1 = 1" "prd_loop 0 1 1 = 10" "prd_loop 0 2 1 = 100"
  by (simp_all add: prd_loop.simps)


lemmas mode_unfold = mode_def gate_index_def mode_arm_def mode_off_def InitPCInterrupt_def
  Let_def FCEXTNO_def FCPRDNO_def FCMODEMAX_def PERIODTIMOUT_def FCEXTGATEMSK_def
  t_loop_vals prd_loop_vals divisor_of_def


lemma mode_fields:
  assumes "0 \<le> sint m" "sint m \<le> 9"
  shows "fst (mode m s) = m"
    and "fcGateTime (snd (mode m s)) = m"
    and "fcprescalInit (snd (mode m s)) = divisor_of m"
    and "fcprescaler (snd (mode m s)) = (if m = 0 \<or> m = 6 then 0 else 1)"
    and "PrdCnt (snd (mode m s)) =
           (if m = 7 then 1 else if m = 8 then 10 else if m = 9 then 100 else PrdCnt s)"
    and "fcOVF (snd (mode m s)) = (if 7 \<le> sint m then 0 else fcOVF s)"
    and "FreqCtrReady (snd (mode m s)) = 0"
    and "fcResult (snd (mode m s)) = 0"
    and "TCCR0B (snd (mode m s)) = (if 7 \<le> sint m then 6 else 0)"
  using sbyte_cases [OF assms] by (elim disjE; simp add: mode_unfold)+



lemma divisor_of_nonzero:
  "0 \<le> sint g \<Longrightarrow> sint g \<le> 9 \<Longrightarrow> g \<noteq> 0 \<Longrightarrow> divisor_of g \<noteq> 0"
  by (frule (1) sbyte_cases) (auto simp: divisor_of_def)

lemma fc_inv_init: "fc_inv init_state"
  by (simp add: fc_inv_def init_state_def divisor_of_def)

lemma fc_inv_mode: "fc_inv s \<Longrightarrow> fc_inv (snd (mode g s))"
proof (cases "0 \<le> sint g \<and> sint g \<le> 9")
  case False
  then show "fc_inv s \<Longrightarrow> fc_inv (snd (mode g s))"
    by (auto simp: mode_def FCMODEMAX_def)
next
  case True
  then have r: "0 \<le> sint g" "sint g \<le> 9" by simp_all
  from sbyte_cases [OF r] show ?thesis
    unfolding fc_inv_def mode_fields [OF r] by (elim disjE) simp_all
qed

lemma GateISR_fields [simp]:
  "fcGateTime (FreqCtrGateISR t s) = fcGateTime s"
  "fcprescalInit (FreqCtrGateISR t s) = fcprescalInit s"
  "PrdCnt (FreqCtrGateISR t s) = PrdCnt s"
  "fcprescaler (FreqCtrGateISR t s) =
     (if fcprescaler s = 0 then 0 else if fcprescaler s = 1 then fcprescalInit s
      else fcprescaler s - 1)"
  by (simp_all add: FreqCtrGateISR_def Let_def)

lemma fc_inv_GateISR: "fc_inv s \<Longrightarrow> fc_inv (FreqCtrGateISR t s)"
  by (auto simp: fc_inv_def dest: divisor_of_nonzero)

lemma OVF_fields [simp]:
  "fcGateTime (TIMER0_OVF us s) = fcGateTime s"
  "fcprescalInit (TIMER0_OVF us s) = fcprescalInit s"
  "PrdCnt (TIMER0_OVF us s) = PrdCnt s"
  "fcprescaler (TIMER0_OVF us s) =
     (if FCPRDNO \<le> sint (fcGateTime s) then fcprescalInit s else fcprescaler s)"
  by (simp_all add: TIMER0_OVF_def Let_def)

lemma fc_inv_OVF: "fc_inv s \<Longrightarrow> fc_inv (TIMER0_OVF us s)"
  by (auto simp: fc_inv_def FCPRDNO_def dest: divisor_of_nonzero)

lemma PCChange_fields [simp]:
  "fcGateTime (snd (PCChangeIntFunc c t s)) = fcGateTime s"
  "fcprescalInit (snd (PCChangeIntFunc c t s)) = fcprescalInit s"
  "PrdCnt (snd (PCChangeIntFunc c t s)) = PrdCnt s"
  "fcprescaler (snd (PCChangeIntFunc c t s)) = fcprescaler s"
  by (simp_all add: PCChangeIntFunc_def Let_def split: prod.splits)

lemma fc_inv_PCChange: "fc_inv s \<Longrightarrow> fc_inv (snd (PCChangeIntFunc c t s))"
  by (simp add: fc_inv_def)

lemma fc_inv_fcprescale: "fc_inv (s\<lparr>fcprescale := v\<rparr>) = fc_inv s"
  by (simp add: fc_inv_def)

lemma fc_inv_ready: "fc_inv (s\<lparr>FreqCtrReady := v\<rparr>) = fc_inv s"
  by (simp add: fc_inv_def)

lemma fc_inv_SysTimer: "fc_inv s \<Longrightarrow> fc_inv (SysTimerIntFunc t s)"
  by (simp add: SysTimerIntFunc_def Let_def fc_inv_fcprescale fc_inv_GateISR)

lemma fc_inv_event: "fc_inv s \<Longrightarrow> fc_inv (apply_event e s)"
  by (cases e) (simp_all add: fc_inv_GateISR fc_inv_SysTimer fc_inv_OVF fc_inv_PCChange fc_inv_mode)

lemma fc_inv_fold: "fc_inv s \<Longrightarrow> fc_inv (fold apply_event evs s)"
  by (induction evs arbitrary: s) (simp_all add: fc_inv_event)

lemma fc_inv_wait: "fc_inv s \<Longrightarrow> wait_ready W env s = Inr s' \<Longrightarrow> fc_inv s'"
proof (induction env arbitrary: s)
  case Nil
  then show ?case by (auto split: if_splits)
next
  case (Cons evs env)
  show ?case
  proof (cases "fcGateTime s \<noteq> 0 \<and> W \<and> FreqCtrReady s = 0")
    case True
    with Cons.prems(2) have "wait_ready W env (fold apply_event evs s) = Inr s'" by simp
    with Cons.IH [OF fc_inv_fold [OF Cons.prems(1)]] show ?thesis by blast
  next
    case False
    with Cons.prems show ?thesis by auto
  qed
qed

lemma read_raw_state:
  "read_raw W env s = Inr (v, s') \<Longrightarrow> \<exists>s1. wait_ready W env s = Inr s1 \<and> s' = s1\<lparr>FreqCtrReady := 0\<rparr>"
  by (auto simp: read_raw_def Let_def split: sum.splits)

lemma read_str_state:
  "read_str St W env s = Inr (r, s') \<Longrightarrow>
     s' = s \<or> (\<exists>s1. wait_ready W env s = Inr s1 \<and> s' = s1\<lparr>FreqCtrReady := 0\<rparr>)"
  by (auto simp: read_str_def Let_def split: sum.splits if_splits prod.splits)

lemma reachable_inv: "reachable s \<Longrightarrow> fc_inv s"
proof (induction rule: reachable.induct)
  case start
  show ?case by (rule fc_inv_init)
next
  case (event s e)
  then show ?case by (simp add: fc_inv_event)
next
  case (read_str s St Wait env r s')
  from read_str_state [OF read_str.hyps(2)] read_str.IH show ?case
    by (auto simp: fc_inv_ready dest: fc_inv_wait)
next
  case (read_raw s Wait env v s')
  from read_raw_state [OF read_raw.hyps(2)] read_raw.IH show ?case
    by (auto simp: fc_inv_ready dest: fc_inv_wait)
qed


section \<open>Mode controller properties\<close>


text \<open>
  Claim C6. For every supported mode code \<open>m\<close> (0 up to \<open>FCMODEMAX\<close>), \<open>mode(m)\<close>
  returns \<open>m\<close>, and \<open>mode()\<close> called afterwards returns \<open>m\<close>.
\<close>

theorem mode_returns_committed_code:
  assumes "0 \<le> sint m" and "sint m \<le> FCMODEMAX"
  shows "fst (mode m s) = m \<and> mode_get (snd (mode m s)) = m"
  using assms mode_fields(1,2) [of m s] by (simp add: FCMODEMAX_def mode_get_def)

theorem mode_returns_committed_code_witness:
  "0 \<le> sint (7 :: sbyte) \<and> sint (7 :: sbyte) \<le> FCMODEMAX \<and>
   fst (mode 7 init_state) = 7 \<and> mode_get (snd (mode 7 init_state)) = 7"
  using mode_returns_committed_code [of 7 init_state] by (simp add: FCMODEMAX_def)

text \<open>
  Claim C10. In every reachable state, \<open>mode(g)\<close> with any negative \<open>g\<close> returns the
  current mode code, which is never -1, and changes no state.
\<close>

theorem negative_code_is_query:
  assumes "reachable s" and "sint g < 0"
  shows "mode g s = (mode_get s, s) \<and> fst (mode g s) \<noteq> - 1"
proof -
  from assms(1) have "0 \<le> sint (fcGateTime s)" by (simp add: reachable_inv [unfolded fc_inv_def])
  then have "fcGateTime s \<noteq> - 1" by auto
  with assms(2) show ?thesis by (simp add: mode_def mode_get_def)
qed

theorem negative_code_is_query_witness:
  "reachable (snd (mode 4 init_state)) \<and> sint (- 7 :: sbyte) < 0 \<and>
   mode (- 7) (snd (mode 4 init_state)) = (4, snd (mode 4 init_state))"
proof -
  have r: "reachable (snd (mode 4 init_state))"
    using reachable.event [OF reachable.start, of "EvMode 4"] by simp
  have n: "sint (- 7 :: sbyte) < 0" by simp
  have m: "mode_get (snd (mode 4 init_state)) = 4"
    by (simp add: mode_get_def mode_fields(2))
  from negative_code_is_query [OF r n] r n m show ?thesis by simp
qed

text \<open>
  Claim C7 says that every code outside the supported set makes \<open>mode\<close> return -1.
  The code -2 is outside the set, yet \<open>mode(-2)\<close> in the initial state returns the
  current mode 0: negative codes take the \<open>goto GetGate\<close> exit.
\<close>

theorem invalid_code_counterexample:
  "\<not> (0 \<le> sint (- 2 :: sbyte) \<and> sint (- 2 :: sbyte) \<le> FCMODEMAX) \<and>
   fst (mode (- 2) init_state) \<noteq> - 1"
  by (simp add: mode_def init_state_def)

text \<open>
  Claim C7, amended. A code outside the supported set leaves the whole state unchanged;
  a code above \<open>FCMODEMAX\<close> returns -1, a negative code returns the current mode.
\<close>

theorem code_outside_supported_set:
  assumes "sint g < 0 \<or> FCMODEMAX < sint g"
  shows "snd (mode g s) = s \<and> fst (mode g s) = (if sint g < 0 then mode_get s else - 1)"
  using assms by (auto simp: mode_def mode_get_def)

theorem code_outside_supported_set_witness:
  "FCMODEMAX < sint (10 :: sbyte) \<and> mode 10 (snd (mode 3 init_state)) = (- 1, snd (mode 3 init_state)) \<and>
   sint (- 1 :: sbyte) < 0 \<and> mode (- 1) (snd (mode 3 init_state)) = (3, snd (mode 3 init_state))"
proof -
  have a: "FCMODEMAX < sint (10 :: sbyte)" by (simp add: FCMODEMAX_def)
  have b: "sint (- 1 :: sbyte) < 0" by simp
  have m: "mode_get (snd (mode 3 init_state)) = 3"
    by (simp add: mode_get_def mode_fields(2))
  from code_outside_supported_set [of 10 "snd (mode 3 init_state)"]
       code_outside_supported_set [of "- 1" "snd (mode 3 init_state)"] a b m
  show ?thesis by (simp add: prod_eq_iff)
qed

text \<open>
  Claim C8 says that \<open>fcprescaler\<close> is zero exactly when the mode is Off. After
  \<open>mode(6)\<close> (external gate) from the initial state the mode is 6 and \<open>fcprescaler\<close> is 0.
\<close>

theorem prescaler_zero_counterexample:
  "reachable (snd (mode 6 init_state)) \<and> mode_get (snd (mode 6 init_state)) \<noteq> 0 \<and>
   fcprescaler (snd (mode 6 init_state)) = 0"
proof -
  have "reachable (snd (mode 6 init_state))"
    using reachable.event [OF reachable.start, of "EvMode 6"] by simp
  then show ?thesis by (simp add: mode_get_def mode_fields)
qed

text \<open>
  Claim C8, amended. In every reachable state \<open>fcprescaler\<close> is zero exactly when the
  mode is Off or ExternalGate; it is nonzero in every tick-gated and period mode.
\<close>

theorem prescaler_zero_iff_off_or_external:
  assumes "reachable s"
  shows "fcprescaler s = 0 \<longleftrightarrow> mode_get s = 0 \<or> mode_get s = 6"
  using reachable_inv [OF assms] by (simp add: fc_inv_def mode_get_def)

theorem prescaler_zero_iff_off_or_external_witness:
  "reachable (FreqCtrGateISR 0 (snd (mode 3 init_state))) \<and>
   mode_get (FreqCtrGateISR 0 (snd (mode 3 init_state))) = 3 \<and>
   fcprescaler (FreqCtrGateISR 0 (snd (mode 3 init_state))) = 10"
proof -
  have "reachable (snd (mode 3 init_state))"
    using reachable.event [OF reachable.start, of "EvMode 3"] by simp
  then have r: "reachable (FreqCtrGateISR 0 (snd (mode 3 init_state)))"
    using reachable.event [of "snd (mode 3 init_state)" "EvGate 0"] by simp
  from prescaler_zero_iff_off_or_external [OF r] r show ?thesis
    by (simp add: mode_get_def mode_fields divisor_of_def)
qed

lemma fcOVF_GateISR_freq:
  "sint (fcGateTime s) < FCPRDNO \<Longrightarrow>
   fcOVF (FreqCtrGateISR t s) = (if fcprescaler s = 1 then 0 else fcOVF s)"
  by (simp add: FreqCtrGateISR_def Let_def)

lemma fcOVF_OVF_freq:
  "sint (fcGateTime s) < FCPRDNO \<Longrightarrow> fcOVF (TIMER0_OVF us s) = fcOVF s + 1"
  by (simp add: TIMER0_OVF_def)

text \<open>
  Claim C5. The claim asks \<open>mode\<close> to reset \<open>fcOVF\<close> in every branch; the period
  branch does (\<open>fcOVF=0\<close>), the frequency branch does not. With the 1 s gate running,
  one gate tick and one counter overflow leave \<open>fcOVF = 1\<close>. A following \<open>mode(2)\<close>
  is accepted, clears \<open>fcResult\<close> and returns with \<open>fcOVF\<close> still 1; the first gate
  tick of the new mode, with the counter stopped at 0, copies the old overflow into
  \<open>fcResult\<close>, and \<open>read(false)\<close> returns 256 although nothing was counted in the
  new mode.
\<close>

theorem mode_frequency_branch_keeps_fcOVF:
  "fst (mode 2 (TIMER0_OVF 0 (FreqCtrGateISR 0 (snd (mode 1 init_state))))) = 2 \<and>
   fcOVF (snd (mode 2 (TIMER0_OVF 0 (FreqCtrGateISR 0 (snd (mode 1 init_state)))))) = 1 \<and>
   fcResult (snd (mode 2 (TIMER0_OVF 0 (FreqCtrGateISR 0 (snd (mode 1 init_state)))))) = 0 \<and>
   fcResult (FreqCtrGateISR 0
     (snd (mode 2 (TIMER0_OVF 0 (FreqCtrGateISR 0 (snd (mode 1 init_state))))))) = 256 \<and>
   map_sum id fst (read_raw False [] (FreqCtrGateISR 0
     (snd (mode 2 (TIMER0_OVF 0 (FreqCtrGateISR 0 (snd (mode 1 init_state)))))))) = Inr 256"
proof -
  let ?s1 = "TIMER0_OVF 0 (FreqCtrGateISR 0 (snd (mode 1 init_state)))"
  let ?s2 = "snd (mode 2 ?s1)"
  have a: "fst (mode 2 ?s1) = 2" by (simp add: mode_fields)
  have b: "fcOVF ?s2 = 1"
    by (simp add: mode_fields fcOVF_GateISR_freq fcOVF_OVF_freq FCPRDNO_def init_state_def)
  have c: "fcResult ?s2 = 0" by (simp add: mode_fields)
  have p: "fcprescaler ?s2 = 1" "sint (fcGateTime ?s2) < FCPRDNO"
    by (simp_all add: mode_fields FCPRDNO_def)
  from p b have d: "fcResult (FreqCtrGateISR 0 ?s2) = 256"
    by (simp add: FreqCtrGateISR_def Let_def)
  then have "map_sum id fst (read_raw False [] (FreqCtrGateISR 0 ?s2)) = Inr 256"
    by (simp add: read_raw_def)
  with a b c d show ?thesis by (intro conjI)
qed

text \<open>
  What \<open>mode\<close> does reset for every accepted code: the ready flag, the result register
  and the gate countdown, and in the period modes the overflow accumulator.
\<close>

lemma mode_resets_result_and_ready:
  assumes "0 \<le> sint m" and "sint m \<le> FCMODEMAX"
  shows "FreqCtrReady (snd (mode m s)) = 0 \<and> fcResult (snd (mode m s)) = 0 \<and>
         fcprescaler (snd (mode m s)) = (if m = 0 \<or> m = 6 then 0 else 1) \<and>
         (FCPRDNO \<le> sint m \<longrightarrow> fcOVF (snd (mode m s)) = 0)"
  using assms mode_fields [of m s] by (simp add: FCMODEMAX_def FCPRDNO_def)


section \<open>Gate handlers and the first interval\<close>












lemma sprintf_lu_0: "sprintf_lu 0 = ''0''"
  by (simp add: sprintf_lu_def dec_str.simps digit_char_def)

lemma sprintf_lu_999999: "sprintf_lu 999999 = ''999999''"
  by (simp add: sprintf_lu_def dec_str.simps digit_char_def)

lemma DPStr_0_5: "DPStr 0 5 = Inr ''.00000''"
  by (simp add: DPStr_def sprintf_09lu_def dec_str.simps digit_char_def Let_def numeral_eq_Suc)

lemma wait_ready_now:
  "FreqCtrReady s \<noteq> 0 \<or> \<not> Wait \<Longrightarrow> wait_ready Wait env s = Inr s"
  by (cases env) auto

lemma period_scale_sentinel: "period_scale s 1 = (5, 100000, 0)"
proof -
  have "PrdCnt s = 0" if "24 * uint (PrdCnt s) < 1"
  proof -
    from that have "uint (PrdCnt s) = 0" using uint_ge_0 [of "PrdCnt s"] by arith
    then show ?thesis by (simp add: uint_0_iff)
  qed
  then show ?thesis by (auto simp: period_scale_def)
qed

lemma period_scale_overrange:
  "Val \<noteq> 1 \<Longrightarrow> uint Val \<le> 24 * uint (PrdCnt s) \<Longrightarrow> period_scale s Val = (0, 1, 999999)"
  by (simp add: period_scale_def)

lemma read_str_period_sentinel:
  assumes "FCPRDNO \<le> sint (fcGateTime s)" and "fcResult s = 1"
    and "FreqCtrReady s \<noteq> 0 \<or> \<not> Wait"
  shows "read_str True Wait env s = Inr (Some ''0.00000'', s\<lparr>FreqCtrReady := 0\<rparr>)"
  using assms(1,2)
  by (simp add: read_str_def wait_ready_now [OF assms(3)] period_scale_sentinel
      format_value_def sprintf_lu_0 DPStr_0_5)

text \<open>
  Claim C3. In a period mode: when the gate handler's timeout expires (\<open>fcprescaler\<close>
  at 1) with the ready flag clear, it stores the raw value 1 and sets the ready flag, and
  \<open>read(St, Wait)\<close> then returns exactly "0.00000"; every raw value 1 is formatted
  as "0.00000"; and a raw value other than 1 that is not greater than
  \<open>24 * PrdCnt\<close> is formatted as exactly "999999", without a fraction.
\<close>

theorem period_timeout_and_overrange:
  assumes "FCPRDNO \<le> sint (fcGateTime s)"
  shows "(fcprescaler s = 1 \<and> FreqCtrReady s = 0 \<longrightarrow>
           fcResult (FreqCtrGateISR tcnt s) = 1 \<and> FreqCtrReady (FreqCtrGateISR tcnt s) = 1 \<and>
           read_str True Wait env (FreqCtrGateISR tcnt s) =
             Inr (Some ''0.00000'', (FreqCtrGateISR tcnt s)\<lparr>FreqCtrReady := 0\<rparr>)) \<and>
         (fcResult s = 1 \<and> (FreqCtrReady s \<noteq> 0 \<or> \<not> Wait) \<longrightarrow>
           read_str True Wait env s = Inr (Some ''0.00000'', s\<lparr>FreqCtrReady := 0\<rparr>)) \<and>
         (fcResult s \<noteq> 1 \<and> uint (fcResult s) \<le> 24 * uint (PrdCnt s) \<and>
          (FreqCtrReady s \<noteq> 0 \<or> \<not> Wait) \<longrightarrow>
           read_str True Wait env s = Inr (Some ''999999'', s\<lparr>FreqCtrReady := 0\<rparr>))"
proof (intro conjI impI)
  assume h: "fcprescaler s = 1 \<and> FreqCtrReady s = 0"
  with assms show p: "fcResult (FreqCtrGateISR tcnt s) = 1"
    by (simp add: FreqCtrGateISR_def Let_def)
  from h assms show q: "FreqCtrReady (FreqCtrGateISR tcnt s) = 1"
    by (simp add: FreqCtrGateISR_def Let_def)
  from assms have "FCPRDNO \<le> sint (fcGateTime (FreqCtrGateISR tcnt s))" by simp
  from read_str_period_sentinel [OF this p] q
  show "read_str True Wait env (FreqCtrGateISR tcnt s) =
          Inr (Some ''0.00000'', (FreqCtrGateISR tcnt s)\<lparr>FreqCtrReady := 0\<rparr>)"
    by simp
next
  assume "fcResult s = 1 \<and> (FreqCtrReady s \<noteq> 0 \<or> \<not> Wait)"
  with read_str_period_sentinel [OF assms]
  show "read_str True Wait env s = Inr (Some ''0.00000'', s\<lparr>FreqCtrReady := 0\<rparr>)"
    by blast
next
  assume h: "fcResult s \<noteq> 1 \<and> uint (fcResult s) \<le> 24 * uint (PrdCnt s) \<and>
          (FreqCtrReady s \<noteq> 0 \<or> \<not> Wait)"
  then have w: "wait_ready Wait env s = Inr s" by (simp add: wait_ready_now)
  from h have "period_scale s (fcResult s) = (0, 1, 999999)"
    by (simp add: period_scale_overrange)
  with assms w show "read_str True Wait env s = Inr (Some ''999999'', s\<lparr>FreqCtrReady := 0\<rparr>)"
    by (simp add: read_str_def format_value_def sprintf_lu_999999)
qed


section \<open>Formatting\<close>


theorem period_timeout_and_overrange_witness:
  "read_str True True [] (FreqCtrGateISR 0 (snd (mode 7 init_state))) =
     Inr (Some ''0.00000'', (FreqCtrGateISR 0 (snd (mode 7 init_state)))\<lparr>FreqCtrReady := 0\<rparr>) \<and>
   read_str True True [] (TIMER0_OVF 110 (TIMER0_OVF 100 (snd (mode 7 init_state)))) =
     Inr (Some ''999999'',
          (TIMER0_OVF 110 (TIMER0_OVF 100 (snd (mode 7 init_state))))\<lparr>FreqCtrReady := 0\<rparr>)"
proof -
  have g: "FCPRDNO \<le> sint (fcGateTime (snd (mode 7 init_state)))"
    by (simp add: mode_fields FCPRDNO_def)
  have h: "fcprescaler (snd (mode 7 init_state)) = 1 \<and> FreqCtrReady (snd (mode 7 init_state)) = 0"
    by (simp add: mode_fields)
  have g2: "FCPRDNO \<le> sint (fcGateTime (TIMER0_OVF 110 (TIMER0_OVF 100 (snd (mode 7 init_state)))))"
    by (simp add: mode_fields FCPRDNO_def)
  have h2: "fcResult (TIMER0_OVF 110 (TIMER0_OVF 100 (snd (mode 7 init_state)))) = 10"
    "PrdCnt (TIMER0_OVF 110 (TIMER0_OVF 100 (snd (mode 7 init_state)))) = 1"
    "FreqCtrReady (TIMER0_OVF 110 (TIMER0_OVF 100 (snd (mode 7 init_state)))) = 1"
    by (simp_all add: TIMER0_OVF_def Let_def mode_fields FCPRDNO_def)
  from period_timeout_and_overrange [OF g, of 0 True "[]"] h
       period_timeout_and_overrange [OF g2, of 0 True "[]"] h2
  show ?thesis by simp
qed

lemma Log10I_vals:
  "Log10I 0 = 0" "Log10I 1 = 0" "Log10I 10 = 1" "Log10I 100 = 2" "Log10I 1000 = 3"
  "Log10I 10000 = 4"
  by (simp_all add: Log10I_def Log10I_loop.simps)

lemma mul10_loop_vals:
  "mul10_loop (- 2) V = (0, V * 10 * 10)" "mul10_loop (- 1) V = (0, V * 10)"
  by (simp_all add: mul10_loop.simps)

lemma freq_scale_vals:
  "fcprescalInit s = 0 \<Longrightarrow> freq_scale s V = (0, 1, V * 10 * 10)"
  "fcprescalInit s = 1 \<Longrightarrow> freq_scale s V = (0, 1, V * 10 * 10)"
  "fcprescalInit s = 10 \<Longrightarrow> freq_scale s V = (0, 1, V * 10)"
  "fcprescalInit s = 100 \<Longrightarrow> freq_scale s V = (0, 1, V)"
  "fcprescalInit s = 1000 \<Longrightarrow> freq_scale s V = (1, 10, V)"
  "fcprescalInit s = 10000 \<Longrightarrow> freq_scale s V = (2, 100, V)"
  by (simp_all add: freq_scale_def Let_def Log10I_vals mul10_loop_vals)



lemma dec_str_small: "n < 10 \<Longrightarrow> dec_str n = [digit_char n]"
  by (subst dec_str.simps) simp

lemma dec_str_snoc: "10 \<le> n \<Longrightarrow> dec_str n = dec_str (n div 10) @ [digit_char (n mod 10)]"
  by (subst dec_str.simps) simp

lemma digit_char_0: "digit_char 0 = CHR ''0''"
  by (simp add: digit_char_def)

lemma low_digits_0: "low_digits 0 n = []"
  by (simp add: low_digits_def)

lemma low_digits_Suc: "low_digits (Suc k) n = low_digits k (n div 10) @ [digit_char (n mod 10)]"
proof -
  have "n div 10 ^ (Suc k - i) = n div 10 div 10 ^ (k - i)" if "i \<in> set [1..<Suc k]" for i
  proof -
    from that have "Suc k - i = Suc (k - i)" by auto
    then show ?thesis by (simp add: div_mult2_eq)
  qed
  then have "map (\<lambda>i. digit_char (n div 10 ^ (Suc k - i) mod 10)) [1..<Suc k] =
             map (\<lambda>i. digit_char (n div 10 div 10 ^ (k - i) mod 10)) [1..<Suc k]"
    by (intro map_cong) simp_all
  then show ?thesis by (simp add: low_digits_def)
qed

lemma low_digits_zero: "low_digits k 0 = replicate k CHR ''0''"
  by (induction k) (simp_all add: low_digits_0 low_digits_Suc digit_char_0 replicate_append_same)

lemma padded_low_digits:
  "k \<le> j + length (dec_str n) \<Longrightarrow>
   drop (j + length (dec_str n) - k) (replicate j CHR ''0'' @ dec_str n) = low_digits k n"
proof (induction k arbitrary: n j)
  case 0
  show ?case by (simp add: low_digits_0)
next
  case (Suc k)
  show ?case
  proof (cases "n < 10")
    case True
    with Suc.prems have "k \<le> j" by (simp add: dec_str_small)
    then have "drop (j - k) (replicate j CHR ''0'') = replicate k CHR ''0''" by simp
    with True \<open>k \<le> j\<close> show ?thesis
      by (simp add: dec_str_small low_digits_Suc low_digits_zero)
  next
    case False
    then have d: "dec_str n = dec_str (n div 10) @ [digit_char (n mod 10)]"
      by (simp add: dec_str_snoc)
    from Suc.prems d have le: "k \<le> j + length (dec_str (n div 10))" by simp
    have "drop (j + length (dec_str n) - Suc k) (replicate j CHR ''0'' @ dec_str n) =
          drop (j + length (dec_str (n div 10)) - k)
            (replicate j CHR ''0'' @ dec_str (n div 10)) @ [digit_char (n mod 10)]"
      using le by (simp add: d)
    with Suc.IH [OF le] show ?thesis by (simp add: low_digits_Suc)
  qed
qed

lemma length_sprintf_09lu: "9 \<le> length (sprintf_09lu V)"
  by (simp add: sprintf_09lu_def)

lemma DPStr_low_digits:
  assumes "0 < k" and "k \<le> 8"
  shows "DPStr V k = Inr (CHR ''.'' # low_digits k (unat V))"
proof -
  let ?n = "unat V"
  let ?j = "9 - length (dec_str ?n)"
  have len: "length (sprintf_09lu V) = ?j + length (dec_str ?n)"
    by (simp add: sprintf_09lu_def)
  from assms length_sprintf_09lu [of V] have lt: "k < length (sprintf_09lu V)" by simp
  then have "k \<le> ?j + length (dec_str ?n)" using len by simp
  from padded_low_digits [OF this]
  have "drop (length (sprintf_09lu V) - k) (sprintf_09lu V) = low_digits k ?n"
    by (simp add: len sprintf_09lu_def)
  with assms lt show ?thesis by (simp add: DPStr_def Let_def)
qed



lemma format_value_int: "format_value 0 1 X = Inr (sprintf_lu X)"
  by (simp add: format_value_def)

lemma format_value_1: "format_value 1 10 X = Inr (sprintf_lu (X div 10) @ CHR ''.'' # low_digits 1 (unat X))"
  using DPStr_low_digits [of 1 X] by (simp add: format_value_def)

lemma format_value_2: "format_value 2 100 X = Inr (sprintf_lu (X div 100) @ CHR ''.'' # low_digits 2 (unat X))"
  using DPStr_low_digits [of 2 X] by (simp add: format_value_def)

lemma format_value_5:
  "format_value 5 100000 X = Inr (sprintf_lu (X div 100000) @ CHR ''.'' # low_digits 5 (unat X))"
  using DPStr_low_digits [of 5 X] by (simp add: format_value_def)

lemma low_digits_1: "low_digits (Suc 0) n = [digit_char (n mod 10)]"
  by (simp add: low_digits_Suc low_digits_0)

lemma low_digits_2: "low_digits 2 n = [digit_char (n div 10 mod 10), digit_char (n mod 10)]"
  by (simp add: numeral_2_eq_2 low_digits_Suc low_digits_0)

lemma read_str_ready:
  assumes "FreqCtrReady s \<noteq> 0 \<or> \<not> Wait"
  shows "read_str True Wait env s =
     (case (if FCPRDNO \<le> sint (fcGateTime s) then period_scale s (fcResult s)
            else freq_scale s (fcResult s)) of
        (dp, scale, V) \<Rightarrow>
          (case format_value dp scale V of
             Inl e \<Rightarrow> Inl e
           | Inr str \<Rightarrow> Inr (Some str, s\<lparr>FreqCtrReady := 0\<rparr>)))"
  by (simp add: read_str_def wait_ready_now [OF assms] Let_def)

lemma digit_char_digit: "d < 10 \<Longrightarrow> digit_char d \<in> set ''0123456789''"
  unfolding digit_char_def by (rule nth_mem) simp

lemma dec_str_digits: "set (dec_str n) \<subseteq> set ''0123456789''"
proof (induction n rule: dec_str.induct)
  case (1 n)
  show ?case
  proof (cases "n < 10")
    case True
    then show ?thesis using digit_char_digit [of n] by (simp add: dec_str_small)
  next
    case False
    with "1" digit_char_digit [of "n mod 10"] show ?thesis by (simp add: dec_str_snoc)
  qed
qed

lemma dec_str_no_point: "CHR ''.'' \<notin> set (dec_str n)"
  using dec_str_digits [of n] by auto


lemma gate_countdown:
  "unat (fcprescaler s) = Suc n \<Longrightarrow> ((FreqCtrGateISR t) ^^ n) s = s\<lparr>fcprescaler := 1\<rparr>"
proof (induction n arbitrary: s)
  case 0
  then have "fcprescaler s = 1" by (simp add: word_unat_eq_iff)
  then have "s\<lparr>fcprescaler := 1\<rparr> = s" by simp
  then show ?case by simp
next
  case (Suc n)
  from Suc.prems have nz: "fcprescaler s \<noteq> 0" by auto
  then have u: "unat (fcprescaler s - 1) = Suc n" using Suc.prems by (simp add: unat_minus_one)
  then have nz': "fcprescaler s - 1 \<noteq> 0" by auto
  from nz nz' have step: "FreqCtrGateISR t s = s\<lparr>fcprescaler := fcprescaler s - 1\<rparr>"
    by (simp add: FreqCtrGateISR_def Let_def)
  have "((FreqCtrGateISR t) ^^ Suc n) s = ((FreqCtrGateISR t) ^^ n) (FreqCtrGateISR t s)"
    by (simp add: funpow_swap1)
  also have "\<dots> = (s\<lparr>fcprescaler := fcprescaler s - 1\<rparr>)\<lparr>fcprescaler := 1\<rparr>"
    using Suc.IH [of "s\<lparr>fcprescaler := fcprescaler s - 1\<rparr>"] u by (simp add: step)
  finally show ?case by simp
qed

lemma reachable_funpow_gate: "reachable s \<Longrightarrow> reachable (((FreqCtrGateISR t) ^^ n) s)"
proof (induction n)
  case 0
  then show ?case by simp
next
  case (Suc n)
  from reachable.event [OF Suc.IH [OF Suc.prems], of "EvGate t"] show ?case by simp
qed

text \<open>
  Claim C2. In every reachable state in a frequency mode (1 to 6), \<open>read(St, Wait)\<close>
  returns the raw count scaled by the gate divisor as \<open>spec_freq_str\<close> describes: a
  whole number without a decimal point for gates up to one second, the truncated quotient
  and the remainder digits for the longer gates. The string has a decimal point exactly
  when the divisor is above 100 ticks; a raw count of 500 gives "50000" with the 10 ms
  gate and "50.0" with the 10 s gate. The divisor is the value of \<open>fcprescalInit\<close>,
  which \<open>divisor_of\<close> tabulates by mode code.
\<close>

theorem frequency_mode_formatting:
  assumes "reachable s" and "1 \<le> sint (mode_get s)" and "sint (mode_get s) \<le> 6"
    and "FreqCtrReady s \<noteq> 0 \<or> \<not> Wait"
  shows "read_str True Wait env s =
           Inr (Some (spec_freq_str (unat (divisor_of (mode_get s))) (fcResult s)),
                s\<lparr>FreqCtrReady := 0\<rparr>) \<and>
         (CHR ''.'' \<in> set (spec_freq_str (unat (divisor_of (mode_get s))) (fcResult s))
            \<longleftrightarrow> 100 < divisor_of (mode_get s)) \<and>
         (mode_get s = 2 \<and> fcResult s = 500 \<longrightarrow>
            spec_freq_str (unat (divisor_of (mode_get s))) (fcResult s) = ''50000'') \<and>
         (mode_get s = 4 \<and> fcResult s = 500 \<longrightarrow>
            spec_freq_str (unat (divisor_of (mode_get s))) (fcResult s) = ''50.0'') \<and>
         fcprescalInit s = divisor_of (mode_get s)"
proof -
  from reachable_inv [OF assms(1)]
  have i: "fcprescalInit s = divisor_of (fcGateTime s)" by (simp add: fc_inv_def)
  from assms(2,3) have r: "0 \<le> sint (fcGateTime s)" "sint (fcGateTime s) \<le> 9"
    by (simp_all add: mode_get_def)
  from assms(3) have p: "\<not> FCPRDNO \<le> sint (fcGateTime s)" by (simp add: mode_get_def FCPRDNO_def)
  from sbyte_cases [OF r] assms(2,3)
  have c: "fcGateTime s = 1 \<or> fcGateTime s = 2 \<or> fcGateTime s = 3 \<or> fcGateTime s = 4 \<or>
           fcGateTime s = 5 \<or> fcGateTime s = 6"
    by (auto simp: mode_get_def)
  have ex: "dec_str 50000 = ''50000''" "dec_str 50 = ''50''"
    by (simp_all add: dec_str.simps digit_char_def)
  from c show ?thesis
    by (elim disjE)
      (simp_all add: mode_get_def divisor_of_def read_str_ready [OF assms(4)] FCPRDNO_def i
        freq_scale_vals format_value_int format_value_1 format_value_2 spec_freq_str_def
        sprintf_lu_def unat_div dec_str_no_point ex low_digits_1 low_digits_2 digit_char_def
        mult.commute)
qed


theorem frequency_mode_formatting_witness:
  "read_str True True []
     (FreqCtrGateISR 244 (TIMER0_OVF 0 (FreqCtrGateISR 0 (snd (mode 2 init_state))))) =
     Inr (Some ''50000'',
          (FreqCtrGateISR 244 (TIMER0_OVF 0 (FreqCtrGateISR 0 (snd (mode 2 init_state)))))
            \<lparr>FreqCtrReady := 0\<rparr>) \<and>
   read_str True True []
     (FreqCtrGateISR 244 (((FreqCtrGateISR 0) ^^ 999)
        (TIMER0_OVF 0 (FreqCtrGateISR 0 (snd (mode 4 init_state)))))) =
     Inr (Some ''50.0'',
          (FreqCtrGateISR 244 (((FreqCtrGateISR 0) ^^ 999)
             (TIMER0_OVF 0 (FreqCtrGateISR 0 (snd (mode 4 init_state))))))
            \<lparr>FreqCtrReady := 0\<rparr>)"
proof -
  let ?a = "TIMER0_OVF 0 (FreqCtrGateISR 0 (snd (mode 2 init_state)))"
  let ?b = "TIMER0_OVF 0 (FreqCtrGateISR 0 (snd (mode 4 init_state)))"
  have ra: "reachable (FreqCtrGateISR 244 ?a)"
    using reachable.event [OF reachable.event [OF reachable.event [OF reachable.event
      [OF reachable.start, of "EvMode 2"], of "EvGate 0"], of "EvOvf 0"], of "EvGate 244"]
    by simp
  have rb0: "reachable ?b"
    using reachable.event [OF reachable.event [OF reachable.event
      [OF reachable.start, of "EvMode 4"], of "EvGate 0"], of "EvOvf 0"]
    by simp
  have rb: "reachable (FreqCtrGateISR 244 (((FreqCtrGateISR 0) ^^ 999) ?b))"
    using reachable.event [OF reachable_funpow_gate [OF rb0, where t = 0 and n = 999], of "EvGate 244"] by simp
  have pb: "unat (fcprescaler ?b) = Suc 999"
    by (simp add: mode_fields divisor_of_def FCPRDNO_def)
  have cb: "((FreqCtrGateISR 0) ^^ 999) ?b = ?b\<lparr>fcprescaler := 1\<rparr>"
    by (rule gate_countdown [OF pb])
  have fa: "mode_get (FreqCtrGateISR 244 ?a) = 2" "fcResult (FreqCtrGateISR 244 ?a) = 500"
    "FreqCtrReady (FreqCtrGateISR 244 ?a) = 1"
    by (simp_all add: mode_get_def FreqCtrGateISR_def TIMER0_OVF_def Let_def mode_fields
        FCPRDNO_def init_state_def divisor_of_def)
  have fb: "mode_get (FreqCtrGateISR 244 (?b\<lparr>fcprescaler := 1\<rparr>)) = 4"
    "fcResult (FreqCtrGateISR 244 (?b\<lparr>fcprescaler := 1\<rparr>)) = 500"
    "FreqCtrReady (FreqCtrGateISR 244 (?b\<lparr>fcprescaler := 1\<rparr>)) = 1"
    by (simp_all add: mode_get_def FreqCtrGateISR_def TIMER0_OVF_def Let_def mode_fields
        FCPRDNO_def init_state_def divisor_of_def)
  from frequency_mode_formatting [OF ra, of True "[]"] fa
  have A: "read_str True True [] (FreqCtrGateISR 244 ?a) =
     Inr (Some ''50000'', (FreqCtrGateISR 244 ?a)\<lparr>FreqCtrReady := 0\<rparr>)"
    by simp
  from frequency_mode_formatting [OF rb, of True "[]"] fb
  have B: "read_str True True [] (FreqCtrGateISR 244 (?b\<lparr>fcprescaler := 1\<rparr>)) =
     Inr (Some ''50.0'', (FreqCtrGateISR 244 (?b\<lparr>fcprescaler := 1\<rparr>))\<lparr>FreqCtrReady := 0\<rparr>)"
    by (simp add: cb)
  from A B show ?thesis by (simp only: cb)
qed



section \<open>Blocking reads\<close>


lemma format_total:
  assumes "fc_inv s"
  shows "\<exists>str. (case (if FCPRDNO \<le> sint (fcGateTime s) then period_scale s V
                      else freq_scale s V) of
                 (dp, scale, V') \<Rightarrow> format_value dp scale V') = Inr str"
proof (cases "FCPRDNO \<le> sint (fcGateTime s)")
  case True
  then show ?thesis
    by (simp add: period_scale_def format_value_5 format_value_int)
next
  case False
  from assms have r: "0 \<le> sint (fcGateTime s)" "sint (fcGateTime s) \<le> 9"
    and i: "fcprescalInit s = divisor_of (fcGateTime s)"
    by (simp_all add: fc_inv_def)
  from sbyte_cases [OF r] False show ?thesis
    by (elim disjE)
      (simp_all add: FCPRDNO_def i divisor_of_def freq_scale_vals format_value_int
        format_value_1 format_value_2)
qed

lemma read_str_returns:
  assumes "fc_inv s" and "wait_ready Wait env s = Inr s1"
  shows "\<exists>str. read_str True Wait env s = Inr (Some str, s1\<lparr>FreqCtrReady := 0\<rparr>)"
proof -
  from fc_inv_wait [OF assms] have "fc_inv s1" .
  from format_total [OF this, of "fcResult s1"] obtain str where
    "(case (if FCPRDNO \<le> sint (fcGateTime s1) then period_scale s1 (fcResult s1)
            else freq_scale s1 (fcResult s1)) of
        (dp, scale, V') \<Rightarrow> format_value dp scale V') = Inr str" ..
  then show ?thesis
    by (auto simp: read_str_def assms(2) Let_def split: prod.splits)
qed

lemma wait_ready_off: "fcGateTime s = 0 \<Longrightarrow> wait_ready Wait env s = Inr s"
  by (cases env) simp_all

lemma wait_ready_released:
  "fc_inv s \<Longrightarrow> \<exists>s'. wait_ready Wait (pre @ (evs @ [EvMode 0]) # post) s = Inr s'"
proof (induction pre arbitrary: s)
  case Nil
  have "fcGateTime (fold apply_event (evs @ [EvMode 0]) s) = 0"
    by (simp add: mode_fields)
  then show ?case by (simp add: wait_ready_off)
next
  case (Cons b pre)
  from Cons.IH [OF fc_inv_fold [OF Cons.prems, of b]] show ?case by auto
qed

text \<open>
  Claim C9. In a reachable state with the mode Off, the wait loop of a read with
  \<open>Wait = true\<close> ends at its first test: both overloads return with no \<open>yield()\<close>
  at all (the environment is empty). And whatever happened in earlier iterations, once a
  call of \<open>yield()\<close> ends with \<open>mode(0)\<close> the next test of the loop finds the mode Off
  and both overloads return.
\<close>

theorem waiting_read_released_when_off:
  assumes "reachable s"
  shows "(mode_get s = 0 \<longrightarrow>
            wait_ready True [] s = Inr s \<and>
            read_raw True [] s = Inr (fcResult s, s\<lparr>FreqCtrReady := 0\<rparr>) \<and>
            (\<exists>str. read_str True True [] s = Inr (Some str, s\<lparr>FreqCtrReady := 0\<rparr>))) \<and>
         (\<exists>v s'. read_raw True (pre @ (evs @ [EvMode 0]) # post) s = Inr (v, s')) \<and>
         (\<exists>str s'. read_str True True (pre @ (evs @ [EvMode 0]) # post) s = Inr (Some str, s'))"
proof (intro conjI impI)
  note inv = reachable_inv [OF assms]
  {
    assume "mode_get s = 0"
    then have w: "wait_ready True [] s = Inr s" by (simp add: mode_get_def)
    then show "wait_ready True [] s = Inr s" .
    from w show "read_raw True [] s = Inr (fcResult s, s\<lparr>FreqCtrReady := 0\<rparr>)"
      by (simp add: read_raw_def)
    from read_str_returns [OF inv w]
    show "\<exists>str. read_str True True [] s = Inr (Some str, s\<lparr>FreqCtrReady := 0\<rparr>)" .
  }
  from wait_ready_released [OF inv] obtain s1 where
    w: "wait_ready True (pre @ (evs @ [EvMode 0]) # post) s = Inr s1" by blast
  then show "\<exists>v s'. read_raw True (pre @ (evs @ [EvMode 0]) # post) s = Inr (v, s')"
    by (simp add: read_raw_def)
  from read_str_returns [OF inv w]
  show "\<exists>str s'. read_str True True (pre @ (evs @ [EvMode 0]) # post) s = Inr (Some str, s')"
    by blast
qed


theorem waiting_read_released_when_off_witness:
  "read_raw True [] init_state = Inr (0, init_state) \<and>
   read_raw True [[]] (snd (mode 1 init_state)) = Inl StillWaiting \<and>
   (\<exists>v s'. read_raw True [[EvGate 0], [EvOvf 0, EvMode 0], [EvGate 0]] (snd (mode 1 init_state)) =
      Inr (v, s')) \<and>
   (\<exists>str s'. read_str True True [[EvGate 0], [EvOvf 0, EvMode 0], [EvGate 0]]
      (snd (mode 1 init_state)) = Inr (Some str, s'))"
proof -
  have r: "reachable (snd (mode 1 init_state))"
    using reachable.event [OF reachable.start, of "EvMode 1"] by simp
  have w: "read_raw True [[]] (snd (mode 1 init_state)) = Inl StillWaiting"
    by (simp add: read_raw_def mode_fields)
  have i: "init_state\<lparr>FreqCtrReady := 0\<rparr> = init_state" "fcResult init_state = 0"
    "mode_get init_state = 0"
    by (simp_all add: init_state_def mode_get_def)
  from waiting_read_released_when_off [OF reachable.start, of "[]" "[]" "[]"]
       waiting_read_released_when_off [OF r, of "[[EvGate 0]]" "[EvOvf 0]" "[[EvGate 0]]"] w i
  show ?thesis by simp
qed


section \<open>Period modes\<close>


lemma scaled_div: "0 < c \<Longrightarrow> x * c div p div c = x div (p :: nat)"
proof -
  assume c: "0 < c"
  have "x * c div p div c = x * c div (p * c)" by (simp add: div_mult2_eq)
  also have "\<dots> = x div p" using c by simp
  finally show ?thesis .
qed

lemma period_quotient_bound:
  assumes "24 * N < (P :: nat)"
  shows "100000000000 * N div P < 2 ^ 32"
proof -
  from assms have "0 < P" by simp
  have "100000000000 * N < 2 ^ 32 * P" using assms by simp
  then show ?thesis using \<open>0 < P\<close> by (simp add: less_mult_imp_div_less mult.commute)
qed

lemma period_quotient_unat:
  fixes p :: byte and V :: ulong
  assumes "24 * unat p < unat V"
  shows "unat (ucast ((100000000000 * (ucast p :: 64 word)) div (ucast V :: 64 word)) :: ulong) =
         100000000000 * unat p div unat V"
proof -
  have pl: "unat p < 2 ^ 8" using unsigned_less [of p] by simp
  have vl: "unat V < 2 ^ 32" using unsigned_less [of V] by simp
  from pl have p: "unat (ucast p :: 64 word) = unat p"
    by (simp add: unsigned_ucast_eq take_bit_eq_mod)
  from vl have v: "unat (ucast V :: 64 word) = unat V"
    by (simp add: unsigned_ucast_eq take_bit_eq_mod)
  from pl have m: "unat (100000000000 * (ucast p :: 64 word)) = 100000000000 * unat p"
    by (simp add: unat_word_ariths p)
  have "unat ((100000000000 * (ucast p :: 64 word)) div (ucast V :: 64 word)) =
        100000000000 * unat p div unat V"
    by (simp add: unat_div m v)
  moreover note period_quotient_bound [OF assms]
  ultimately show ?thesis by (simp add: unsigned_ucast_eq take_bit_eq_mod)
qed


lemma spec_hz_str_quotient:
  "dec_str (100000000000 * N div P div 100000) @ CHR ''.'' # low_digits 5 (100000000000 * N div P) =
   spec_hz_str N P"
proof -
  let ?q = "100000000000 * N div P"
  have "?q = 10 ^ 6 * N * 100000 div P" by simp
  then have a: "?q div 100000 = 10 ^ 6 * N div P"
    using scaled_div [of 100000 "10 ^ 6 * N" P] by simp
  have "?q div 10 ^ (5 - i) = 10 ^ 6 * N * 10 ^ i div P" if "i \<in> set [1..<Suc 5]" for i
  proof -
    from that have "i \<le> 5" by simp
    then have "(10 :: nat) ^ i * 10 ^ (5 - i) = 10 ^ 5" by (simp flip: power_add)
    then have "?q = 10 ^ 6 * N * 10 ^ i * 10 ^ (5 - i) div P" by (simp add: mult.assoc)
    then show ?thesis using scaled_div [of "10 ^ (5 - i)" "10 ^ 6 * N * 10 ^ i" P] by simp
  qed
  then have "map (\<lambda>i. digit_char (?q div 10 ^ (5 - i) mod 10)) [1..<Suc 5] =
             map (\<lambda>i. digit_char (10 ^ 6 * N * 10 ^ i div P mod 10)) [1..<Suc 5]"
    by (intro map_cong) simp_all
  then have b: "low_digits 5 ?q = map (\<lambda>i. digit_char (10 ^ 6 * N * 10 ^ i div P mod 10)) [1..<6]"
    by (simp add: low_digits_def)
  show ?thesis unfolding spec_hz_str_def a b by simp
qed

lemma period_scale_valid:
  assumes "FreqCtrReady s \<noteq> 0" and "24 * unat (PrdCnt s) < unat V"
  shows "period_scale s V =
     (5, 100000, ucast ((100000000000 * (ucast (PrdCnt s) :: 64 word)) div (ucast V :: 64 word)))"
proof -
  from assms(2) have "int (24 * unat (PrdCnt s)) < int (unat V)"
    by (simp only: of_nat_less_iff)
  then have "24 * uint (PrdCnt s) < uint V" by simp
  with assms(1) show ?thesis by (simp add: period_scale_def)
qed

text \<open>
  Claim C1. In every reachable state in a period mode with the ready flag set and a raw
  period \<open>P\<close> above \<open>24 * N\<close>, where \<open>N = PrdCnt\<close> is 1, 10 or 100 for the modes
  7, 8 and 9, \<open>read(St, Wait)\<close> returns the decimal rendering of \<open>10^6 * N / P\<close> with
  exactly five digits after the decimal point, every digit exact.
\<close>

theorem period_mode_formatting:
  assumes "reachable s" and "FCPRDNO \<le> sint (mode_get s)" and "FreqCtrReady s \<noteq> 0"
    and "24 * unat (PrdCnt s) < unat (fcResult s)"
  shows "read_str True Wait env s =
           Inr (Some (spec_hz_str (unat (PrdCnt s)) (unat (fcResult s))),
                s\<lparr>FreqCtrReady := 0\<rparr>) \<and>
         unat (PrdCnt s) = 10 ^ nat (sint (mode_get s) - FCPRDNO)"
proof
  let ?Q = "ucast ((100000000000 * (ucast (PrdCnt s) :: 64 word)) div
              (ucast (fcResult s) :: 64 word)) :: ulong"
  have q: "unat ?Q = 100000000000 * unat (PrdCnt s) div unat (fcResult s)"
    by (rule period_quotient_unat [OF assms(4)])
  have "sprintf_lu (?Q div 100000) @ CHR ''.'' # low_digits 5 (unat ?Q) =
        spec_hz_str (unat (PrdCnt s)) (unat (fcResult s))"
    unfolding sprintf_lu_def unat_div q
    using spec_hz_str_quotient [of "unat (PrdCnt s)" "unat (fcResult s)"] by simp
  with assms(2) show "read_str True Wait env s =
           Inr (Some (spec_hz_str (unat (PrdCnt s)) (unat (fcResult s))),
                s\<lparr>FreqCtrReady := 0\<rparr>)"
    by (simp add: read_str_ready assms(3) mode_get_def period_scale_valid [OF assms(3,4)]
        format_value_5)
next
  from reachable_inv [OF assms(1)]
  have r: "0 \<le> sint (fcGateTime s)" "sint (fcGateTime s) \<le> 9"
    and c: "PrdCnt s = (if fcGateTime s = 7 then 1 else if fcGateTime s = 8 then 10 else 100)"
    using assms(2) by (simp_all add: fc_inv_def mode_get_def FCPRDNO_def)
  from sbyte_cases [OF r] assms(2)
  show "unat (PrdCnt s) = 10 ^ nat (sint (mode_get s) - FCPRDNO)"
    by (elim disjE) (simp_all add: c mode_get_def FCPRDNO_def)
qed



lemma spec_hz_str_examples:
  "spec_hz_str 1 1000 = ''1000.00000''"
  "spec_hz_str 100 2401 = ''41649.31278''"
  by (simp_all add: spec_hz_str_def dec_str.simps digit_char_def upt_rec [of _ 6])

theorem period_mode_formatting_witness:
  "read_str True True [] (TIMER0_OVF 2000 (TIMER0_OVF 1000 (snd (mode 7 init_state)))) =
     Inr (Some ''1000.00000'',
          (TIMER0_OVF 2000 (TIMER0_OVF 1000 (snd (mode 7 init_state))))\<lparr>FreqCtrReady := 0\<rparr>) \<and>
   read_str True True [] (TIMER0_OVF 3401 (TIMER0_OVF 1000 (snd (mode 9 init_state)))) =
     Inr (Some ''41649.31278'',
          (TIMER0_OVF 3401 (TIMER0_OVF 1000 (snd (mode 9 init_state))))\<lparr>FreqCtrReady := 0\<rparr>)"
proof -
  let ?a = "TIMER0_OVF 2000 (TIMER0_OVF 1000 (snd (mode 7 init_state)))"
  let ?b = "TIMER0_OVF 3401 (TIMER0_OVF 1000 (snd (mode 9 init_state)))"
  have ra: "reachable ?a"
    using reachable.event [OF reachable.event [OF reachable.event
      [OF reachable.start, of "EvMode 7"], of "EvOvf 1000"], of "EvOvf 2000"]
    by simp
  have rb: "reachable ?b"
    using reachable.event [OF reachable.event [OF reachable.event
      [OF reachable.start, of "EvMode 9"], of "EvOvf 1000"], of "EvOvf 3401"]
    by simp
  have fa: "FCPRDNO \<le> sint (mode_get ?a)" "FreqCtrReady ?a \<noteq> 0" "PrdCnt ?a = 1"
    "fcResult ?a = 1000"
    by (simp_all add: mode_get_def TIMER0_OVF_def Let_def mode_fields FCPRDNO_def)
  have fb: "FCPRDNO \<le> sint (mode_get ?b)" "FreqCtrReady ?b \<noteq> 0" "PrdCnt ?b = 100"
    "fcResult ?b = 2401"
    by (simp_all add: mode_get_def TIMER0_OVF_def Let_def mode_fields FCPRDNO_def)
  have ba: "24 * unat (PrdCnt ?a) < unat (fcResult ?a)" by (simp only: fa) simp
  have bb: "24 * unat (PrdCnt ?b) < unat (fcResult ?b)" by (simp only: fb) simp
  have ua: "unat (PrdCnt ?a) = 1" "unat (fcResult ?a) = 1000"
    by (simp_all only: fa) simp_all
  have ub: "unat (PrdCnt ?b) = 100" "unat (fcResult ?b) = 2401"
    by (simp_all only: fb) simp_all
  from period_mode_formatting [OF ra fa(1,2) ba, of True "[]", THEN conjunct1]
  have A: "read_str True True [] ?a = Inr (Some ''1000.00000'', ?a\<lparr>FreqCtrReady := 0\<rparr>)"
    by (simp only: ua spec_hz_str_examples)
  from period_mode_formatting [OF rb fb(1,2) bb, of True "[]", THEN conjunct1]
  have B: "read_str True True [] ?b = Inr (Some ''41649.31278'', ?b\<lparr>FreqCtrReady := 0\<rparr>)"
    by (simp only: ub spec_hz_str_examples)
  from A B show ?thesis by (rule conjI)
qed


end
